theory Spec2Isabelle
  imports
    Main
    "HOL-Library.Char_ord"
    "HOL-Library.List_Lexorder"
    "HOL-Library.Product_Lexorder"
    "HOL-Library.Signed_Division"
    "HOL-Library.Multiset"
    "HOL-Library.Sublist"
begin

section \<open>Go primitives used by the engine\<close>

text \<open>
  Go's \<^verbatim>\<open>int\<close> (64 bits on the usual platforms) is modelled as \<^typ>\<open>int\<close> with
  the 64-bit two's-complement wrap-around written out at every addition and subtraction the engine performs on note
  values. The remainder operator \<^verbatim>\<open>%\<close> truncates towards zero, so its result
  carries the sign of the dividend: it is \<open>smod\<close>, not \<open>mod\<close>.
\<close>

definition wrap64 :: "int \<Rightarrow> int" where
  "wrap64 x = (x + 2 ^ 63) mod 2 ^ 64 - 2 ^ 63"

definition go_add :: "int \<Rightarrow> int \<Rightarrow> int" where
  "go_add a b = wrap64 (a + b)"

definition go_sub :: "int \<Rightarrow> int \<Rightarrow> int" where
  "go_sub a b = wrap64 (a - b)"

definition go_rem :: "int \<Rightarrow> int \<Rightarrow> int" where
  "go_rem a b = a smod b"

text \<open>
  A Go string is a sequence of bytes, here a \<^typ>\<open>string\<close>. \<^verbatim>\<open>unicode.ToTitle\<close>
  and \<^verbatim>\<open>strings.ToUpper\<close> agree on ASCII, where they shift \<open>a\<close>..\<open>z\<close> down
  by 32. A byte above 127 belongs to a non-ASCII rune (or is decoded as U+FFFD); no such
  rune is mapped to one of the characters \<open>A\<close>..\<open>G\<close> or \<open>#\<close> of the note table,
  so the model leaves such bytes as they are: the normalised token misses the table in both.
\<close>

definition ToUpper_char :: "char \<Rightarrow> char" where
  "ToUpper_char c =
     (if CHR ''a'' \<le> c \<and> c \<le> CHR ''z'' then char_of (of_char c - (32::nat)) else c)"

definition ToTitle_char :: "char \<Rightarrow> char" where
  "ToTitle_char c = ToUpper_char c"

definition ToUpper :: "string \<Rightarrow> string" where
  "ToUpper s = map ToUpper_char s"

text \<open>\<^verbatim>\<open>strings.Replace(s, old, new, 1)\<close> for one-character \<open>old\<close> and \<open>new\<close>:
  only the first occurrence is replaced.\<close>

fun Replace_once :: "char \<Rightarrow> char \<Rightarrow> string \<Rightarrow> string" where
  "Replace_once old new [] = []"
| "Replace_once old new (c # cs) =
     (if c = old then new # cs else c # Replace_once old new cs)"

text \<open>\<^verbatim>\<open>strings.Join(parts, sep)\<close>.\<close>

fun Join :: "string list \<Rightarrow> string \<Rightarrow> string" where
  "Join [] sep = []"
| "Join [p] sep = p"
| "Join (p # q # ps) sep = p @ sep @ Join (q # ps) sep"

text \<open>Failures of the engine: the errors it returns, and the run-time panic of an
  index expression that is out of range.\<close>

datatype error =
    CannotParseEmptyString
  | UnrecognizedNote
  | InvalidRootNote
  | UnknownChordQuality string

datatype panic = IndexOutOfRange int

section \<open>Note logic\<close>

record Note =
  Original :: string
  Value :: int

definition noteMap_entries :: "(string \<times> int) list" where
  "noteMap_entries =
     [(''C'', 0), (''B#'', 0), (''C#'', 1), (''DB'', 1), (''D'', 2), (''D#'', 3),
      (''EB'', 3), (''E'', 4), (''FB'', 4), (''F'', 5), (''E#'', 5), (''F#'', 6),
      (''GB'', 6), (''G'', 7), (''G#'', 8), (''AB'', 8), (''A'', 9), (''A#'', 10),
      (''BB'', 10), (''B'', 11), (''CB'', 11)]"

definition noteMap :: "string \<rightharpoonup> int" where
  "noteMap = map_of noteMap_entries"

definition valueToName :: "string list" where
  "valueToName =
     [''C'', ''C#'', ''D'', ''D#'', ''E'', ''F'', ''F#'', ''G'', ''G#'', ''A'', ''A#'', ''B'']"

text \<open>The index expression \<^verbatim>\<open>valueToName[v]\<close>: it panics outside \<open>0..11\<close>.\<close>

definition valueToName_at :: "int \<Rightarrow> panic + string" where
  "valueToName_at v =
     (if 0 \<le> v \<and> v < int (length valueToName) then Inr (valueToName ! nat v)
      else Inl (IndexOutOfRange v))"

text \<open>The token \<^verbatim>\<open>normalized\<close> that \<^verbatim>\<open>ParseNote\<close> looks up: first character
  title-cased, the rest upper-cased, then the first \<open>b\<close> replaced by \<open>B\<close>. The source
  computes it for a non-empty input only.\<close>

fun normalized :: "string \<Rightarrow> string" where
  "normalized [] = []"
| "normalized (c # cs) =
     Replace_once (CHR ''b'') (CHR ''B'')
       ([ToTitle_char c] @ (if length (c # cs) > 1 then ToUpper cs else []))"

fun ParseNote :: "string \<Rightarrow> error + Note" where
  "ParseNote [] = Inl CannotParseEmptyString"
| "ParseNote (c # cs) =
     (case noteMap (normalized (c # cs)) of
        None \<Rightarrow> Inl UnrecognizedNote
      | Some v \<Rightarrow> Inr \<lparr>Original = c # cs, Value = v\<rparr>)"

text \<open>\<^verbatim>\<open>Unique\<close>: one pass with the set \<^verbatim>\<open>seen\<close> of values met so far and the
  slice \<^verbatim>\<open>uniqueNotes\<close> appended to.\<close>

fun Unique_loop :: "int set \<Rightarrow> Note list \<Rightarrow> Note list \<Rightarrow> Note list" where
  "Unique_loop seen uniqueNotes [] = uniqueNotes"
| "Unique_loop seen uniqueNotes (n # ns) =
     (if Value n \<notin> seen then Unique_loop (insert (Value n) seen) (uniqueNotes @ [n]) ns
      else Unique_loop seen uniqueNotes ns)"

definition Unique :: "Note list \<Rightarrow> Note list" where
  "Unique notes = Unique_loop {} [] notes"

text \<open>\<^verbatim>\<open>SliceToString\<close>: the loop stops at the first index expression that panics.\<close>

fun SliceToString_parts :: "Note list \<Rightarrow> panic + string list" where
  "SliceToString_parts [] = Inr []"
| "SliceToString_parts (n # ns) =
     (case (if Original n = [] then valueToName_at (Value n) else Inr (Original n)) of
        Inl p \<Rightarrow> Inl p
      | Inr part \<Rightarrow>
          (case SliceToString_parts ns of
             Inl p \<Rightarrow> Inl p
           | Inr parts \<Rightarrow> Inr (part # parts)))"

definition SliceToString :: "Note list \<Rightarrow> panic + string" where
  "SliceToString notes =
     (case SliceToString_parts notes of
        Inl p \<Rightarrow> Inl p
      | Inr parts \<Rightarrow> Inr (Join parts '' ''))"

section \<open>Chord logic\<close>

record Chord =
  Chord_Name :: string
  Suffixes :: "string list"
  Chord_Intervals :: "int list"

record Match =
  Match_Name :: string
  Match_Intervals :: "int list"

definition chordDictionary :: "Chord list" where
  "chordDictionary =
     [\<lparr>Chord_Name = ''Major 7th'', Suffixes = [''maj7'', ''M7''], Chord_Intervals = [0, 4, 7, 11]\<rparr>,
      \<lparr>Chord_Name = ''Minor-Major 7th'', Suffixes = [''m(maj7)''], Chord_Intervals = [0, 3, 7, 11]\<rparr>,
      \<lparr>Chord_Name = ''Minor 7th'', Suffixes = [''m7'', ''min7''], Chord_Intervals = [0, 3, 7, 10]\<rparr>,
      \<lparr>Chord_Name = ''Dominant 7th'', Suffixes = [''7'', ''dom7''], Chord_Intervals = [0, 4, 7, 10]\<rparr>,
      \<lparr>Chord_Name = ''Major Triad'', Suffixes = ['''', ''M''], Chord_Intervals = [0, 4, 7]\<rparr>,
      \<lparr>Chord_Name = ''Minor Triad'', Suffixes = [''m'', ''min''], Chord_Intervals = [0, 3, 7]\<rparr>,
      \<lparr>Chord_Name = ''Diminished Triad'', Suffixes = [''dim''], Chord_Intervals = [0, 3, 6]\<rparr>,
      \<lparr>Chord_Name = ''Augmented Triad'', Suffixes = [''aug'', ''+''], Chord_Intervals = [0, 4, 8]\<rparr>,
      \<lparr>Chord_Name = ''Sus2'', Suffixes = [''sus2''], Chord_Intervals = [0, 2, 7]\<rparr>,
      \<lparr>Chord_Name = ''Sus4'', Suffixes = [''sus4''], Chord_Intervals = [0, 5, 7]\<rparr>]"

definition GetDictionary :: "Chord list" where
  "GetDictionary = chordDictionary"

text \<open>The two nested loops of \<^verbatim>\<open>ParseChordName\<close>: the inner one runs through the
  suffixes of one definition, the outer one through the dictionary, and the first
  suffix equal to the quality returns.\<close>

fun suffix_loop :: "string \<Rightarrow> string list \<Rightarrow> bool" where
  "suffix_loop quality [] = False"
| "suffix_loop quality (sfx # rest) =
     (if quality = sfx then True else suffix_loop quality rest)"

fun chordDef_loop :: "string \<Rightarrow> Chord list \<Rightarrow> Chord option" where
  "chordDef_loop quality [] = None"
| "chordDef_loop quality (chordDef # rest) =
     (if suffix_loop quality (Suffixes chordDef) then Some chordDef
      else chordDef_loop quality rest)"

definition find_quality :: "Note \<Rightarrow> string \<Rightarrow> error + Note \<times> Chord" where
  "find_quality rootNote quality =
     (case chordDef_loop quality chordDictionary of
        Some chordDef \<Rightarrow> Inr (rootNote, chordDef)
      | None \<Rightarrow> Inl (UnknownChordQuality quality))"

definition ParseChordName :: "string \<Rightarrow> error + Note \<times> Chord" where
  "ParseChordName name =
     (if length name > 1 then
        (case ParseNote (take 2 name) of
           Inr rootNote \<Rightarrow> find_quality rootNote (drop 2 name)
         | Inl _ \<Rightarrow>
             (case ParseNote (take 1 name) of
                Inr rootNote \<Rightarrow> find_quality rootNote (drop 1 name)
              | Inl _ \<Rightarrow> Inl InvalidRootNote))
      else
        (case ParseNote name of
           Inr rootNote \<Rightarrow> find_quality rootNote []
         | Inl _ \<Rightarrow> Inl InvalidRootNote))"

text \<open>\<^verbatim>\<open>GenerateNotes\<close> fills the result in index order; the first index expression
  \<^verbatim>\<open>valueToName[noteValue]\<close> out of range panics.\<close>

fun GenerateNotes :: "Note \<Rightarrow> int list \<Rightarrow> panic + Note list" where
  "GenerateNotes root [] = Inr []"
| "GenerateNotes root (interval # rest) =
     (let noteValue = go_rem (go_add (Value root) interval) 12 in
      case valueToName_at noteValue of
        Inl p \<Rightarrow> Inl p
      | Inr nm \<Rightarrow>
          (case GenerateNotes root rest of
             Inl p \<Rightarrow> Inl p
           | Inr notes \<Rightarrow> Inr (\<lparr>Original = nm, Value = noteValue\<rparr> # notes)))"

text \<open>\<^verbatim>\<open>sort.Ints\<close> returns the ascending arrangement of the integers, which is
  unique; \<^const>\<open>sort\<close> computes it.\<close>

definition CalculateIntervals :: "Note \<Rightarrow> Note list \<Rightarrow> int list" where
  "CalculateIntervals root notes =
     sort (map (\<lambda>n. let interval = go_sub (Value n) (Value root) in
                     if interval < 0 then go_add interval 12 else interval) notes)"

text \<open>Decimal rendering of \<^verbatim>\<open>%d\<close>.\<close>

fun digits :: "nat \<Rightarrow> string" where
  "digits n =
     (if n < 10 then [char_of (48 + n)] else digits (n div 10) @ [char_of (48 + n mod 10)])"

definition Sprint_d :: "int \<Rightarrow> string" where
  "Sprint_d i = (if i < 0 then CHR ''-'' # digits (nat (- i)) else digits (nat i))"

fun missing_interval :: "int list \<Rightarrow> int set \<Rightarrow> int option" where
  "missing_interval [] inputSet = None"
| "missing_interval (requiredInterval # rest) inputSet =
     (if requiredInterval \<notin> inputSet then Some requiredInterval
      else missing_interval rest inputSet)"

definition Check :: "Chord \<Rightarrow> int list \<Rightarrow> int set \<Rightarrow> bool \<times> string" where
  "Check c inputIntervals inputSet =
     (if length inputIntervals < length (Chord_Intervals c) then
        (False, ''requires '' @ Sprint_d (int (length (Chord_Intervals c)))
                  @ '' intervals, input has '' @ Sprint_d (int (length inputIntervals)))
      else
        (case missing_interval (Chord_Intervals c) inputSet of
           Some requiredInterval \<Rightarrow> (False, ''missing interval '' @ Sprint_d requiredInterval)
         | None \<Rightarrow> (True, '''')))"

fun FindMatches_loop :: "int list \<Rightarrow> int set \<Rightarrow> Chord list \<Rightarrow> Match list" where
  "FindMatches_loop intervals intervalSet [] = []"
| "FindMatches_loop intervals intervalSet (chordDef # rest) =
     (if fst (Check chordDef intervals intervalSet) then
        \<lparr>Match_Name = Chord_Name chordDef, Match_Intervals = Chord_Intervals chordDef\<rparr>
          # FindMatches_loop intervals intervalSet rest
      else FindMatches_loop intervals intervalSet rest)"

definition FindMatches :: "int list \<Rightarrow> Match list" where
  "FindMatches intervals =
     (let intervalSet = foldl (\<lambda>s i. insert i s) {} intervals in
      FindMatches_loop intervals intervalSet chordDictionary)"

section \<open>Key logic\<close>

record Key =
  Key_Name :: string
  Notes :: "int set"

record KeyMatch =
  KeyMatch_Name :: string
  MatchCount :: int

definition noteNames :: "string list" where
  "noteNames =
     [''C'', ''C#'', ''D'', ''D#'', ''E'', ''F'', ''F#'', ''G'', ''G#'', ''A'', ''A#'', ''B'']"

definition flatNames :: "string list" where
  "flatNames =
     [''C'', ''Db'', ''D'', ''Eb'', ''E'', ''F'', ''Gb'', ''G'', ''Ab'', ''A'', ''Bb'', ''B'']"

definition majorPattern :: "int list" where
  "majorPattern = [0, 2, 4, 5, 7, 9, 11]"

definition minorPattern :: "int list" where
  "minorPattern = [0, 2, 3, 5, 7, 8, 10]"

text \<open>One round of the loop of \<^verbatim>\<open>init\<close> for the counter \<open>i\<close>, which runs from 0 to 11:
  the indices into the two name tables are in range.\<close>

definition scale_notes :: "int \<Rightarrow> int list \<Rightarrow> int set" where
  "scale_notes i pattern =
     foldl (\<lambda>s interval. insert (go_rem (go_add i interval) 12) s) {} pattern"

definition init_step :: "Key list \<Rightarrow> int \<Rightarrow> Key list" where
  "init_step keys i =
     (keys @ [\<lparr>Key_Name = flatNames ! nat i @ '' Major'', Notes = scale_notes i majorPattern\<rparr>])
       @ [\<lparr>Key_Name = noteNames ! nat i @ '' Minor'', Notes = scale_notes i minorPattern\<rparr>]"

definition keySignatures :: "Key list" where
  "keySignatures = foldl init_step [] [0..11]"

text \<open>The comparison handed to \<^verbatim>\<open>sort.Slice\<close> in \<^verbatim>\<open>Estimate\<close>.\<close>

definition KeyMatch_less :: "KeyMatch \<Rightarrow> KeyMatch \<Rightarrow> bool" where
  "KeyMatch_less a b =
     (if MatchCount a \<noteq> MatchCount b then MatchCount a > MatchCount b
      else KeyMatch_Name a < KeyMatch_Name b)"

text \<open>\<^verbatim>\<open>sort.Slice\<close> rearranges the slice so that no element is less than one before
  it. It is modelled by insertion sort. The library's algorithm is another one and is not
  stable, but under \<^const>\<open>KeyMatch_less\<close> two elements neither of which is less than the
  other are equal, so every such arrangement is the same list (lemma
  \<open>sort_Slice_KeyMatch_unique\<close> below).\<close>

fun insert_Slice :: "('a \<Rightarrow> 'a \<Rightarrow> bool) \<Rightarrow> 'a \<Rightarrow> 'a list \<Rightarrow> 'a list" where
  "insert_Slice lt x [] = [x]"
| "insert_Slice lt x (y # ys) =
     (if lt y x then y # insert_Slice lt x ys else x # y # ys)"

definition sort_Slice :: "('a \<Rightarrow> 'a \<Rightarrow> bool) \<Rightarrow> 'a list \<Rightarrow> 'a list" where
  "sort_Slice lt xs = foldr (insert_Slice lt) xs []"

fun count_loop :: "Key \<Rightarrow> Note list \<Rightarrow> int \<Rightarrow> int" where
  "count_loop keySig [] cnt = cnt"
| "count_loop keySig (n # ns) cnt =
     count_loop keySig ns (if Value n \<in> Notes keySig then cnt + 1 else cnt)"

fun Estimate_loop :: "Note list \<Rightarrow> Key list \<Rightarrow> KeyMatch list" where
  "Estimate_loop notes [] = []"
| "Estimate_loop notes (keySig # rest) =
     (let uniqueNotes = Unique notes;
          cnt = count_loop keySig uniqueNotes 0
      in if cnt > 0 then
           \<lparr>KeyMatch_Name = Key_Name keySig, MatchCount = cnt\<rparr> # Estimate_loop notes rest
         else Estimate_loop notes rest)"

definition Estimate :: "Note list \<Rightarrow> KeyMatch list" where
  "Estimate notes =
     (if length notes = 0 then []
      else sort_Slice KeyMatch_less (Estimate_loop notes keySignatures))"

section \<open>The operations as the specification words them\<close>

text \<open>
  Step 4 of the specification's chord-name parser: scan the dictionary in order and
  return the first entry whose suffix set contains the quality string exactly, failing
  with the unknown-quality error, which names the suffix, when there is none.
\<close>

definition lookup_quality_spec :: "Note \<Rightarrow> string \<Rightarrow> error + Note \<times> Chord" where
  "lookup_quality_spec rootNote quality =
     (case find (\<lambda>c. quality \<in> set (Suffixes c)) chordDictionary of
        Some c \<Rightarrow> Inr (rootNote, c)
      | None \<Rightarrow> Inl (UnknownChordQuality quality))"

text \<open>
  The specification's \<open>estimate\<close>: the pitch classes of the input, each once; for each
  key the number of them that lie in the key's set; keys with no match dropped; the rest
  ordered by match count descending, then by key name ascending (the lexicographic order
  on the pair of the negated count and the name); nothing cut off.
\<close>

definition estimate_spec :: "Note list \<Rightarrow> KeyMatch list" where
  "estimate_spec notes =
     sort_key (\<lambda>m. (- MatchCount m, KeyMatch_Name m))
       (filter (\<lambda>m. MatchCount m > 0)
          (map (\<lambda>k. \<lparr>KeyMatch_Name = Key_Name k,
                      MatchCount = int (card (Value ` set notes \<inter> Notes k))\<rparr>)
             keySignatures))"

section \<open>Properties of the note logic\<close>

subsection \<open>Deduplication\<close>

lemma Unique_loop_acc:
  "Unique_loop seen acc ns = acc @ Unique_loop seen [] ns"
proof (induction ns arbitrary: seen acc)
  case Nil
  show ?case by simp
next
  case (Cons n ns)
  show ?case
    using Cons.IH [of "insert (Value n) seen" "acc @ [n]"]
      Cons.IH [of "insert (Value n) seen" "[n]"] Cons.IH [of seen acc]
    by simp
qed

lemma Unique_loop_Cons:
  "Unique_loop seen [] (n # ns) =
     (if Value n \<notin> seen then n # Unique_loop (insert (Value n) seen) [] ns
      else Unique_loop seen [] ns)"
  using Unique_loop_acc [of "insert (Value n) seen" "[n]" ns] by simp

lemma Unique_loop_Nil: "Unique_loop seen [] [] = []"
  by simp

declare Unique_loop.simps [simp del]

lemma Unique_loop_fresh:
  "n \<in> set (Unique_loop seen [] ns) \<Longrightarrow> Value n \<notin> seen \<and> n \<in> set ns"
  by (induction ns arbitrary: seen) (auto simp: Unique_loop_Nil Unique_loop_Cons split: if_splits)

lemma Unique_loop_values:
  "Value ` set (Unique_loop seen [] ns) = Value ` set ns - seen"
proof (induction ns arbitrary: seen)
  case Nil
  show ?case by (simp add: Unique_loop_Nil)
next
  case (Cons n ns)
  show ?case
    using Cons.IH [of seen] Cons.IH [of "insert (Value n) seen"]
    by (auto simp: Unique_loop_Cons)
qed

lemma Unique_loop_distinct:
  "distinct (map Value (Unique_loop seen [] ns))"
proof (induction ns arbitrary: seen)
  case Nil
  show ?case by (simp add: Unique_loop_Nil)
next
  case (Cons n ns)
  show ?case
    using Cons.IH [of seen] Cons.IH [of "insert (Value n) seen"]
      Unique_loop_values [of "insert (Value n) seen" ns]
    by (auto simp: Unique_loop_Cons)
qed

lemma Unique_loop_subseq:
  "subseq (Unique_loop seen [] ns) ns"
  by (induction ns arbitrary: seen) (auto simp: Unique_loop_Nil Unique_loop_Cons)

lemma Unique_loop_first:
  "n \<in> set (Unique_loop seen [] ns) \<Longrightarrow> find (\<lambda>m. Value m = Value n) ns = Some n"
proof (induction ns arbitrary: seen)
  case Nil
  then show ?case by (simp add: Unique_loop_Nil)
next
  case (Cons x xs)
  show ?case
  proof (cases "n = x")
    case True
    then show ?thesis by simp
  next
    case False
    have "\<exists>s. Value x \<in> s \<and> n \<in> set (Unique_loop s [] xs)"
    proof (cases "Value x \<in> seen")
      case True
      with Cons.prems show ?thesis by (auto simp: Unique_loop_Cons)
    next
      case notin: False
      with Cons.prems False have "n \<in> set (Unique_loop (insert (Value x) seen) [] xs)"
        by (simp add: Unique_loop_Cons)
      then show ?thesis by blast
    qed
    then obtain s where s: "Value x \<in> s" "n \<in> set (Unique_loop s [] xs)" by blast
    from s(2) have "Value n \<notin> s" by (rule Unique_loop_fresh [THEN conjunct1])
    with s(1) have "Value x \<noteq> Value n" by auto
    moreover from s(2) have "find (\<lambda>m. Value m = Value n) xs = Some n" by (rule Cons.IH)
    ultimately show ?thesis by simp
  qed
qed

lemma Unique_loop_id:
  "distinct (map Value ns) \<Longrightarrow> Value ` set ns \<inter> seen = {} \<Longrightarrow> Unique_loop seen [] ns = ns"
proof (induction ns arbitrary: seen)
  case Nil
  show ?case by (simp add: Unique_loop_Nil)
next
  case (Cons n ns)
  from Cons.prems have "Value n \<notin> seen" by auto
  moreover from Cons.prems have "Unique_loop (insert (Value n) seen) [] ns = ns"
    by (intro Cons.IH) auto
  ultimately show ?case by (simp add: Unique_loop_Cons)
qed

lemma Unique_loop_filter_id:
  "filter (\<lambda>m. Value m \<noteq> v) (Unique_loop (insert v seen) [] ns) = Unique_loop (insert v seen) [] ns"
proof -
  have "\<forall>m \<in> set (Unique_loop (insert v seen) [] ns). Value m \<noteq> v"
    using Unique_loop_fresh [of _ "insert v seen" ns] by auto
  then show ?thesis by (simp add: filter_id_conv)
qed

lemma Unique_loop_insert:
  "Unique_loop (insert v seen) [] ns = filter (\<lambda>m. Value m \<noteq> v) (Unique_loop seen [] ns)"
proof (induction ns arbitrary: seen)
  case Nil
  show ?case by (simp add: Unique_loop_Nil)
next
  case (Cons x xs)
  show ?case
  proof (cases "Value x \<in> seen")
    case True
    then show ?thesis by (simp add: Unique_loop_Cons Cons.IH)
  next
    case notin: False
    show ?thesis
    proof (cases "Value x = v")
      case True
      with notin show ?thesis
        using Unique_loop_filter_id [of v seen xs] by (simp add: Unique_loop_Cons)
    next
      case False
      with notin show ?thesis
        using Cons.IH [of "insert (Value x) seen"]
        by (simp add: Unique_loop_Cons insert_commute)
    qed
  qed
qed

lemma Unique_Cons:
  "Unique (n # ns) = n # filter (\<lambda>m. Value m \<noteq> Value n) (Unique ns)"
  by (simp add: Unique_def Unique_loop_Cons Unique_loop_insert)

lemma Unique_loop_positions:
  "Unique_loop seen [] ns =
     map (\<lambda>i. ns ! i)
       (filter (\<lambda>i. Value (ns ! i) \<notin> seen \<union> Value ` set (take i ns)) [0..<length ns])"
proof (induction ns arbitrary: seen)
  case Nil
  show ?case by (simp add: Unique_loop_Nil)
next
  case (Cons x xs)
  have upt: "[0..<length (x # xs)] = 0 # map Suc [0..<length xs]"
    by (simp add: upt_conv_Cons map_Suc_upt del: upt_Suc)
  have shift: "map (\<lambda>i. (x # xs) ! i)
        (filter (\<lambda>i. Value ((x # xs) ! i) \<notin> seen \<union> Value ` set (take i (x # xs)))
           (map Suc [0..<length xs]))
      = map (\<lambda>i. xs ! i)
          (filter (\<lambda>i. Value (xs ! i) \<notin> insert (Value x) seen \<union> Value ` set (take i xs))
             [0..<length xs])"
    by (simp add: filter_map comp_def conj_ac)
  show ?case
  proof (cases "Value x \<in> seen")
    case True
    then have "insert (Value x) seen = seen" by auto
    with True show ?thesis
      unfolding upt using shift Cons.IH [of seen] by (simp add: Unique_loop_Cons)
  next
    case False
    then show ?thesis
      unfolding upt using shift Cons.IH [of "insert (Value x) seen"]
      by (simp add: Unique_loop_Cons)
  qed
qed

lemma Unique_positions:
  "Unique x =
     map (\<lambda>i. x ! i) (filter (\<lambda>i. Value (x ! i) \<notin> Value ` set (take i x)) [0..<length x])"
  using Unique_loop_positions [of "{}" x] by (simp add: Unique_def)

text \<open>
  Claim C7. \<^verbatim>\<open>Unique\<close> (the spec's \<open>dedupe\<close>) is idempotent; its result holds
  each pitch class of the input once and only those; every note it keeps is the first
  note of the input with that pitch class, so it carries the first-seen spelling; and the
  result is a subsequence of the input. The order is pinned down: the result is the list
  of the notes at those positions of the input whose pitch class does not occur at an
  earlier position, in the order of the positions; equivalently, the head of the input
  comes first, followed by the result for the rest without the notes of the head's pitch
  class.
\<close>

theorem Unique_idempotent_first_seen:
  "Unique (Unique x) = Unique x
   \<and> distinct (map Value (Unique x))
   \<and> Value ` set (Unique x) = Value ` set x
   \<and> (\<forall>n \<in> set (Unique x). find (\<lambda>m. Value m = Value n) x = Some n)
   \<and> subseq (Unique x) x
   \<and> Unique x =
       map (\<lambda>i. x ! i)
         (filter (\<lambda>i. Value (x ! i) \<notin> Value ` set (take i x)) [0..<length x])
   \<and> Unique [] = []
   \<and> Unique (n # ns) = n # filter (\<lambda>m. Value m \<noteq> Value n) (Unique ns)"
proof -
  have d: "distinct (map Value (Unique x))"
    unfolding Unique_def by (rule Unique_loop_distinct)
  then have "Unique (Unique x) = Unique x"
    unfolding Unique_def by (intro Unique_loop_id) auto
  moreover have "Value ` set (Unique x) = Value ` set x"
    unfolding Unique_def by (simp add: Unique_loop_values)
  moreover have "\<forall>n \<in> set (Unique x). find (\<lambda>m. Value m = Value n) x = Some n"
    unfolding Unique_def by (blast intro: Unique_loop_first)
  moreover have "subseq (Unique x) x"
    unfolding Unique_def by (rule Unique_loop_subseq)
  moreover have "Unique x =
       map (\<lambda>i. x ! i)
         (filter (\<lambda>i. Value (x ! i) \<notin> Value ` set (take i x)) [0..<length x])"
    by (rule Unique_positions)
  moreover have "Unique [] = []"
    by (simp add: Unique_def Unique_loop_Nil)
  moreover have "Unique (n # ns) = n # filter (\<lambda>m. Value m \<noteq> Value n) (Unique ns)"
    by (rule Unique_Cons)
  ultimately show ?thesis using d by blast
qed

theorem Unique_idempotent_first_seen_witness:
  "Unique (Unique [\<lparr>Original = ''C#'', Value = 1\<rparr>, \<lparr>Original = ''E'', Value = 4\<rparr>,
                   \<lparr>Original = ''Db'', Value = 1\<rparr>])
     = [\<lparr>Original = ''C#'', Value = 1\<rparr>, \<lparr>Original = ''E'', Value = 4\<rparr>]
   \<and> \<lparr>Original = ''C#'', Value = 1\<rparr>
       \<in> set (Unique [\<lparr>Original = ''C#'', Value = 1\<rparr>, \<lparr>Original = ''E'', Value = 4\<rparr>,
                      \<lparr>Original = ''Db'', Value = 1\<rparr>])
   \<and> find (\<lambda>m. Value m = Value \<lparr>Original = ''C#'', Value = 1\<rparr>)
         [\<lparr>Original = ''C#'', Value = 1\<rparr>, \<lparr>Original = ''E'', Value = 4\<rparr>,
          \<lparr>Original = ''Db'', Value = 1\<rparr>] = Some \<lparr>Original = ''C#'', Value = 1\<rparr>
   \<and> Unique [\<lparr>Original = ''C'', Value = 0\<rparr>, \<lparr>Original = ''E'', Value = 4\<rparr>,
              \<lparr>Original = ''C'', Value = 0\<rparr>]
     = [\<lparr>Original = ''C'', Value = 0\<rparr>, \<lparr>Original = ''E'', Value = 4\<rparr>]"
proof -
  let ?x = "[\<lparr>Original = ''C#'', Value = 1\<rparr>, \<lparr>Original = ''E'', Value = 4\<rparr>,
             \<lparr>Original = ''Db'', Value = 1\<rparr>]"
  let ?y = "[\<lparr>Original = ''C'', Value = 0\<rparr>, \<lparr>Original = ''E'', Value = 4\<rparr>,
             \<lparr>Original = ''C'', Value = 0\<rparr>]"
  have u: "Unique ?x = [\<lparr>Original = ''C#'', Value = 1\<rparr>, \<lparr>Original = ''E'', Value = 4\<rparr>]"
    by code_simp
  have m: "\<lparr>Original = ''C#'', Value = 1\<rparr> \<in> set (Unique ?x)"
    by (simp add: u)
  from Unique_idempotent_first_seen [where x = ?x]
  have i: "Unique (Unique ?x) = Unique ?x"
    and f: "\<forall>n \<in> set (Unique ?x). find (\<lambda>m. Value m = Value n) ?x = Some n"
    by blast+
  from f m have c: "find (\<lambda>m. Value m = Value \<lparr>Original = ''C#'', Value = 1\<rparr>) ?x
      = Some \<lparr>Original = ''C#'', Value = 1\<rparr>" by (rule bspec)
  from Unique_idempotent_first_seen [where x = ?y]
  have "Unique ?y =
       map (\<lambda>i. ?y ! i)
         (filter (\<lambda>i. Value (?y ! i) \<notin> Value ` set (take i ?y)) [0..<length ?y])"
    by blast
  also have "\<dots> = [\<lparr>Original = ''C'', Value = 0\<rparr>, \<lparr>Original = ''E'', Value = 4\<rparr>]"
    by code_simp
  finally have p: "Unique ?y = [\<lparr>Original = ''C'', Value = 0\<rparr>, \<lparr>Original = ''E'', Value = 4\<rparr>]" .
  from i u have "Unique (Unique ?x) = [\<lparr>Original = ''C#'', Value = 1\<rparr>, \<lparr>Original = ''E'', Value = 4\<rparr>]"
    by simp
  with m c p show ?thesis by (intro conjI)
qed

subsection \<open>Parsing a note\<close>

lemma noteMap_range: "noteMap k = Some v \<Longrightarrow> 0 \<le> v \<and> v \<le> 11"
  by (auto simp: noteMap_def noteMap_entries_def split: if_splits)

lemma noteMap_empty: "noteMap [] = None"
  by (simp add: noteMap_def noteMap_entries_def)

lemma ParseNote_range: "ParseNote s = Inr n \<Longrightarrow> 0 \<le> Value n \<and> Value n \<le> 11"
  by (cases s) (auto split: option.splits dest: noteMap_range)

text \<open>
  Claim C9. \<^verbatim>\<open>ParseNote\<close> (the spec's \<open>parsePitch\<close>) returns an error exactly when the
  normalised token is absent from the note table, which has 21 entries with distinct names;
  for the empty string the token is empty, and absent. On success the note keeps the input
  string as it was written and carries the table's pitch class. \<open>C#\<close> and \<open>Db\<close> parse to
  pitch class 1 with their own spellings; the empty string, a double accidental, a digit and
  an unknown letter are errors.
\<close>

theorem ParseNote_error_iff_absent:
  "(isl (ParseNote s) \<longleftrightarrow> noteMap (normalized s) = None)
   \<and> (\<forall>n. ParseNote s = Inr n \<longrightarrow> Original n = s \<and> noteMap (normalized s) = Some (Value n))
   \<and> length noteMap_entries = 21
   \<and> distinct (map fst noteMap_entries)
   \<and> ParseNote ''C#'' = Inr \<lparr>Original = ''C#'', Value = 1\<rparr>
   \<and> ParseNote ''Db'' = Inr \<lparr>Original = ''Db'', Value = 1\<rparr>
   \<and> ParseNote '''' = Inl CannotParseEmptyString
   \<and> ParseNote ''C##'' = Inl UnrecognizedNote
   \<and> ParseNote ''C4'' = Inl UnrecognizedNote
   \<and> ParseNote ''H'' = Inl UnrecognizedNote"
proof -
  have a: "isl (ParseNote s) \<longleftrightarrow> noteMap (normalized s) = None"
    by (cases s) (auto simp: noteMap_empty split: option.splits)
  have b: "\<forall>n. ParseNote s = Inr n \<longrightarrow> Original n = s \<and> noteMap (normalized s) = Some (Value n)"
    by (cases s) (auto split: option.splits)
  have c: "length noteMap_entries = 21" "distinct (map fst noteMap_entries)"
    by (simp_all add: noteMap_entries_def)
  have d: "ParseNote ''C#'' = Inr \<lparr>Original = ''C#'', Value = 1\<rparr>"
    "ParseNote ''Db'' = Inr \<lparr>Original = ''Db'', Value = 1\<rparr>"
    "ParseNote '''' = Inl CannotParseEmptyString"
    "ParseNote ''C##'' = Inl UnrecognizedNote"
    "ParseNote ''C4'' = Inl UnrecognizedNote"
    "ParseNote ''H'' = Inl UnrecognizedNote"
    by code_simp+
  from a b c d show ?thesis by blast
qed

theorem ParseNote_error_iff_absent_witness:
  "ParseNote ''eb'' = Inr \<lparr>Original = ''eb'', Value = 3\<rparr>
   \<and> Original \<lparr>Original = ''eb'', Value = 3\<rparr> = ''eb''
   \<and> noteMap (normalized ''eb'') = Some 3"
proof -
  have p: "ParseNote ''eb'' = Inr \<lparr>Original = ''eb'', Value = 3\<rparr>"
    by code_simp
  from ParseNote_error_iff_absent [of "''eb''"]
  have "\<forall>n. ParseNote ''eb'' = Inr n \<longrightarrow> Original n = ''eb'' \<and> noteMap (normalized ''eb'') = Some (Value n)"
    by blast
  with p have "Original \<lparr>Original = ''eb'', Value = 3\<rparr> = ''eb''
      \<and> noteMap (normalized ''eb'') = Some (Value \<lparr>Original = ''eb'', Value = 3\<rparr>)"
    by blast
  with p show ?thesis by simp
qed

section \<open>Generated notes and index expressions\<close>

lemma valueToName_at_Inr:
  "valueToName_at v = Inr nm \<longleftrightarrow> 0 \<le> v \<and> v \<le> 11 \<and> nm = valueToName ! nat v"
  by (auto simp: valueToName_at_def valueToName_def)

lemma valueToName_nonempty: "0 \<le> v \<Longrightarrow> v \<le> 11 \<Longrightarrow> valueToName ! nat v \<noteq> []"
proof -
  assume "0 \<le> v" "v \<le> 11"
  then have "v = 0 \<or> v = 1 \<or> v = 2 \<or> v = 3 \<or> v = 4 \<or> v = 5 \<or> v = 6 \<or> v = 7
      \<or> v = 8 \<or> v = 9 \<or> v = 10 \<or> v = 11" by arith
  then show ?thesis by (auto simp: valueToName_def)
qed

lemma GenerateNotes_Inr:
  "GenerateNotes root offsets = Inr ns \<Longrightarrow>
     map Value ns = map (\<lambda>iv. go_rem (go_add (Value root) iv) 12) offsets
     \<and> (\<forall>n \<in> set ns. 0 \<le> Value n \<and> Value n \<le> 11 \<and> Original n = valueToName ! nat (Value n))"
proof (induction offsets arbitrary: ns)
  case Nil
  then show ?case by simp
next
  case (Cons iv ivs)
  then show ?case
    by (auto simp: Let_def valueToName_at_Inr split: sum.splits)
qed

text \<open>
  Claim C2, as the code has it. The claim asks for an empty \<^const>\<open>Original\<close> in every
  generated note; \<^verbatim>\<open>GenerateNotes\<close> writes the canonical sharp-based name of the pitch
  class instead (see the counterexample below). What holds: whenever
  \<^verbatim>\<open>GenerateNotes\<close> returns, the notes carry the pitch classes
  \<open>(root.Value + offset) % 12\<close> in the order of the offsets, and the \<^const>\<open>Original\<close> of
  each is the entry of \<^const>\<open>valueToName\<close> for its pitch class, which is never empty.
\<close>

theorem GenerateNotes_Original_canonical:
  "GenerateNotes root offsets = Inr ns \<Longrightarrow>
     map Value ns = map (\<lambda>iv. go_rem (go_add (Value root) iv) 12) offsets
     \<and> (\<forall>n \<in> set ns. Original n = valueToName ! nat (Value n) \<and> Original n \<noteq> [])"
  using GenerateNotes_Inr [of root offsets ns] valueToName_nonempty by auto

theorem GenerateNotes_Original_canonical_witness:
  "GenerateNotes \<lparr>Original = ''Bb'', Value = 10\<rparr> [0, 4, 7]
     = Inr [\<lparr>Original = ''A#'', Value = 10\<rparr>, \<lparr>Original = ''D'', Value = 2\<rparr>,
            \<lparr>Original = ''F'', Value = 5\<rparr>]
   \<and> Original \<lparr>Original = ''A#'', Value = 10\<rparr>
       = valueToName ! nat (Value \<lparr>Original = ''A#'', Value = 10\<rparr>)
   \<and> Original \<lparr>Original = ''A#'', Value = 10\<rparr> \<noteq> []"
proof -
  let ?ns = "[\<lparr>Original = ''A#'', Value = 10\<rparr>, \<lparr>Original = ''D'', Value = 2\<rparr>,
            \<lparr>Original = ''F'', Value = 5\<rparr>]"
  have g: "GenerateNotes \<lparr>Original = ''Bb'', Value = 10\<rparr> [0, 4, 7] = Inr ?ns"
    by code_simp
  have "\<forall>n \<in> set ?ns. Original n = valueToName ! nat (Value n) \<and> Original n \<noteq> []"
    using GenerateNotes_Original_canonical [OF g] by (rule conjunct2)
  moreover have "\<lparr>Original = ''A#'', Value = 10\<rparr> \<in> set ?ns" by simp
  ultimately have "Original \<lparr>Original = ''A#'', Value = 10\<rparr>
       = valueToName ! nat (Value \<lparr>Original = ''A#'', Value = 10\<rparr>)
     \<and> Original \<lparr>Original = ''A#'', Value = 10\<rparr> \<noteq> []" by (rule bspec)
  with g show ?thesis by (rule conjI)
qed

text \<open>
  The notes generated for an A minor triad are spelled \<open>A\<close>, \<open>C\<close>, \<open>E\<close>: their
  \<^const>\<open>Original\<close> is not the empty string.
\<close>

theorem GenerateNotes_Original_counterexample:
  "GenerateNotes \<lparr>Original = ''A'', Value = 9\<rparr> [0, 3, 7]
     = Inr [\<lparr>Original = ''A'', Value = 9\<rparr>, \<lparr>Original = ''C'', Value = 0\<rparr>,
            \<lparr>Original = ''E'', Value = 4\<rparr>]
   \<and> Original \<lparr>Original = ''A'', Value = 9\<rparr> \<noteq> ''''"
  by code_simp

lemma wrap64_id: "- (2 ^ 63) \<le> x \<Longrightarrow> x < 2 ^ 63 \<Longrightarrow> wrap64 x = x"
  by (simp add: wrap64_def)

lemma go_rem_nonneg: "0 \<le> a \<Longrightarrow> go_rem a 12 = a mod 12"
  by (simp add: go_rem_def signed_modulo_int_def sgn_if)

lemma noteValue_in_range:
  assumes "0 \<le> r" "r \<le> 11" "0 \<le> iv" "iv \<le> 2 ^ 63 - 12"
  shows "0 \<le> go_rem (go_add r iv) 12 \<and> go_rem (go_add r iv) 12 \<le> 11"
proof -
  from assms have "go_add r iv = r + iv"
    unfolding go_add_def by (intro wrap64_id) simp_all
  moreover from assms have "0 \<le> r + iv" by simp
  ultimately have "go_rem (go_add r iv) 12 = (r + iv) mod 12"
    by (simp add: go_rem_nonneg)
  moreover have "0 \<le> (r + iv) mod 12 \<and> (r + iv) mod 12 < 12" by simp
  ultimately show ?thesis by simp
qed

lemma GenerateNotes_no_panic:
  assumes "0 \<le> Value root" "Value root \<le> 11"
  shows "(\<forall>iv \<in> set offsets. 0 \<le> iv \<and> iv \<le> 2 ^ 63 - 12) \<Longrightarrow>
         \<exists>ns. GenerateNotes root offsets = Inr ns"
proof (induction offsets)
  case Nil
  show ?case by simp
next
  case (Cons iv ivs)
  then obtain ns where ns: "GenerateNotes root ivs = Inr ns" by auto
  from Cons.prems have "0 \<le> iv" "iv \<le> 2 ^ 63 - 12" by simp_all
  with assms have "0 \<le> go_rem (go_add (Value root) iv) 12
      \<and> go_rem (go_add (Value root) iv) 12 \<le> 11"
    by (intro noteValue_in_range)
  then obtain nm where "valueToName_at (go_rem (go_add (Value root) iv) 12) = Inr nm"
    by (auto simp: valueToName_at_Inr)
  with ns show ?case by (simp add: Let_def)
qed

lemma interval_in_range:
  assumes "0 \<le> r" "r \<le> 11" "0 \<le> v" "v \<le> 11"
  shows "0 \<le> (let interval = go_sub v r in if interval < 0 then go_add interval 12 else interval)
       \<and> (let interval = go_sub v r in if interval < 0 then go_add interval 12 else interval) \<le> 11"
proof -
  from assms have s: "go_sub v r = v - r"
    unfolding go_sub_def by (intro wrap64_id) simp_all
  from assms have "go_add (v - r) 12 = v - r + 12"
    unfolding go_add_def by (intro wrap64_id) simp_all
  with s assms show ?thesis by (simp add: Let_def)
qed

lemma CalculateIntervals_range:
  assumes "0 \<le> Value root" "Value root \<le> 11"
    and "\<forall>m \<in> set ns. 0 \<le> Value m \<and> Value m \<le> 11"
  shows "\<forall>i \<in> set (CalculateIntervals root ns). 0 \<le> i \<and> i \<le> 11"
proof
  fix i assume "i \<in> set (CalculateIntervals root ns)"
  then obtain m where m: "m \<in> set ns"
    and i: "i = (let interval = go_sub (Value m) (Value root) in
                 if interval < 0 then go_add interval 12 else interval)"
    by (auto simp: CalculateIntervals_def)
  from m assms(3) have "0 \<le> Value m" "Value m \<le> 11" by auto
  with assms(1,2) show "0 \<le> i \<and> i \<le> 11"
    unfolding i by (intro interval_in_range)
qed

lemma SliceToString_parts_no_panic:
  "(\<forall>m \<in> set ns. 0 \<le> Value m \<and> Value m \<le> 11) \<Longrightarrow> \<exists>ps. SliceToString_parts ns = Inr ps"
proof (induction ns)
  case Nil
  show ?case by simp
next
  case (Cons n ns)
  then obtain ps where ps: "SliceToString_parts ns = Inr ps" by auto
  from Cons.prems have "0 \<le> Value n \<and> Value n \<le> 11" by simp
  then obtain nm where "valueToName_at (Value n) = Inr nm"
    by (auto simp: valueToName_at_Inr)
  with ps show ?case by simp
qed

lemma SliceToString_no_panic:
  "(\<forall>m \<in> set ns. 0 \<le> Value m \<and> Value m \<le> 11) \<Longrightarrow> \<exists>str. SliceToString ns = Inr str"
  using SliceToString_parts_no_panic [of ns] by (auto simp: SliceToString_def)

lemma chordDictionary_offsets_range:
  "c \<in> set chordDictionary \<Longrightarrow> iv \<in> set (Chord_Intervals c) \<Longrightarrow> 0 \<le> iv \<and> iv \<le> 11"
  by (auto simp: chordDictionary_def)

text \<open>
  Claim C10, as the code has it. A note returned by \<^verbatim>\<open>ParseNote\<close> or by
  \<^verbatim>\<open>GenerateNotes\<close> has a value in \<open>0..11\<close>; \<^verbatim>\<open>CalculateIntervals\<close> on a root
  and notes with such values returns only intervals in \<open>0..11\<close>; \<^verbatim>\<open>SliceToString\<close> on
  notes with such values never panics; and \<^verbatim>\<open>GenerateNotes\<close> on a root with such a value
  never panics when every offset lies between 0 and \<^verbatim>\<open>2^63 - 12\<close>, as the offsets of
  every dictionary entry do. The bound on the offsets is needed: a negative offset makes
  the remainder negative and the index expression panic (see the counterexample below).
\<close>

theorem engine_Values_in_range_no_panic:
  "(ParseNote s = Inr n \<longrightarrow> 0 \<le> Value n \<and> Value n \<le> 11)
   \<and> (GenerateNotes root offsets = Inr gs \<longrightarrow> (\<forall>m \<in> set gs. 0 \<le> Value m \<and> Value m \<le> 11))
   \<and> (0 \<le> Value root \<and> Value root \<le> 11 \<and> (\<forall>m \<in> set ns. 0 \<le> Value m \<and> Value m \<le> 11)
        \<longrightarrow> (\<forall>i \<in> set (CalculateIntervals root ns). 0 \<le> i \<and> i \<le> 11))
   \<and> (0 \<le> Value root \<and> Value root \<le> 11 \<and> (\<forall>iv \<in> set offsets. 0 \<le> iv \<and> iv \<le> 2 ^ 63 - 12)
        \<longrightarrow> (\<exists>gs. GenerateNotes root offsets = Inr gs))
   \<and> (0 \<le> Value root \<and> Value root \<le> 11 \<and> c \<in> set chordDictionary
        \<longrightarrow> (\<exists>gs. GenerateNotes root (Chord_Intervals c) = Inr gs))
   \<and> ((\<forall>m \<in> set ns. 0 \<le> Value m \<and> Value m \<le> 11) \<longrightarrow> (\<exists>str. SliceToString ns = Inr str))"
proof -
  have a: "ParseNote s = Inr n \<longrightarrow> 0 \<le> Value n \<and> Value n \<le> 11"
    by (blast dest: ParseNote_range)
  have b: "GenerateNotes root offsets = Inr gs \<longrightarrow> (\<forall>m \<in> set gs. 0 \<le> Value m \<and> Value m \<le> 11)"
    using GenerateNotes_Inr [of root offsets gs] by blast
  have c: "0 \<le> Value root \<and> Value root \<le> 11 \<and> (\<forall>m \<in> set ns. 0 \<le> Value m \<and> Value m \<le> 11)
        \<longrightarrow> (\<forall>i \<in> set (CalculateIntervals root ns). 0 \<le> i \<and> i \<le> 11)"
    using CalculateIntervals_range [of root ns] by blast
  have d: "0 \<le> Value root \<and> Value root \<le> 11 \<and> (\<forall>iv \<in> set offsets. 0 \<le> iv \<and> iv \<le> 2 ^ 63 - 12)
        \<longrightarrow> (\<exists>gs. GenerateNotes root offsets = Inr gs)"
    using GenerateNotes_no_panic [of root offsets] by blast
  have e: "0 \<le> Value root \<and> Value root \<le> 11 \<and> c \<in> set chordDictionary
        \<longrightarrow> (\<exists>gs. GenerateNotes root (Chord_Intervals c) = Inr gs)"
  proof (intro impI, elim conjE)
    assume r: "0 \<le> Value root" "Value root \<le> 11" and c: "c \<in> set chordDictionary"
    have "\<forall>iv \<in> set (Chord_Intervals c). 0 \<le> iv \<and> iv \<le> 2 ^ 63 - 12"
    proof
      fix iv assume "iv \<in> set (Chord_Intervals c)"
      with c have "0 \<le> iv \<and> iv \<le> 11" by (rule chordDictionary_offsets_range)
      then show "0 \<le> iv \<and> iv \<le> 2 ^ 63 - 12" by simp
    qed
    with r show "\<exists>gs. GenerateNotes root (Chord_Intervals c) = Inr gs"
      by (intro GenerateNotes_no_panic)
  qed
  have f: "(\<forall>m \<in> set ns. 0 \<le> Value m \<and> Value m \<le> 11) \<longrightarrow> (\<exists>str. SliceToString ns = Inr str)"
    using SliceToString_no_panic [of ns] by blast
  from a b c d e f show ?thesis by (intro conjI)
qed

theorem engine_Values_in_range_no_panic_witness:
  "ParseNote ''F#'' = Inr \<lparr>Original = ''F#'', Value = 6\<rparr>
   \<and> 0 \<le> Value \<lparr>Original = ''F#'', Value = 6\<rparr> \<and> Value \<lparr>Original = ''F#'', Value = 6\<rparr> \<le> 11
   \<and> GenerateNotes \<lparr>Original = ''F#'', Value = 6\<rparr> [0, 3, 7, 10]
       = Inr [\<lparr>Original = ''F#'', Value = 6\<rparr>, \<lparr>Original = ''A'', Value = 9\<rparr>,
              \<lparr>Original = ''C#'', Value = 1\<rparr>, \<lparr>Original = ''E'', Value = 4\<rparr>]
   \<and> list_all (\<lambda>m. 0 \<le> Value m \<and> Value m \<le> 11)
        [\<lparr>Original = ''F#'', Value = 6\<rparr>, \<lparr>Original = ''A'', Value = 9\<rparr>,
         \<lparr>Original = ''C#'', Value = 1\<rparr>, \<lparr>Original = ''E'', Value = 4\<rparr>]
   \<and> list_all (\<lambda>i. 0 \<le> i \<and> i \<le> 11)
        (CalculateIntervals \<lparr>Original = ''F#'', Value = 6\<rparr>
           [\<lparr>Original = ''C'', Value = 0\<rparr>, \<lparr>Original = '''', Value = 11\<rparr>])
   \<and> (\<exists>gs. GenerateNotes \<lparr>Original = ''F#'', Value = 6\<rparr> [0, 3, 7, 10] = Inr gs)
   \<and> (\<exists>gs. GenerateNotes \<lparr>Original = ''F#'', Value = 6\<rparr> (Chord_Intervals (chordDictionary ! 2))
        = Inr gs)
   \<and> (\<exists>str. SliceToString [\<lparr>Original = ''C'', Value = 0\<rparr>, \<lparr>Original = '''', Value = 11\<rparr>]
        = Inr str)"
proof -
  let ?r = "\<lparr>Original = ''F#'', Value = 6\<rparr>"
  let ?gs = "[\<lparr>Original = ''F#'', Value = 6\<rparr>, \<lparr>Original = ''A'', Value = 9\<rparr>,
              \<lparr>Original = ''C#'', Value = 1\<rparr>, \<lparr>Original = ''E'', Value = 4\<rparr>]"
  let ?ns = "[\<lparr>Original = ''C'', Value = 0\<rparr>, \<lparr>Original = '''', Value = 11\<rparr>]"
  note T = engine_Values_in_range_no_panic [where s = "''F#''" and n = ?r and root = ?r
      and offsets = "[0, 3, 7, 10]" and gs = ?gs and ns = ?ns and c = "chordDictionary ! 2"]
  have h1: "ParseNote ''F#'' = Inr ?r" by code_simp
  have h2: "GenerateNotes ?r [0, 3, 7, 10] = Inr ?gs" by code_simp
  have h3: "0 \<le> Value ?r \<and> Value ?r \<le> 11 \<and> (\<forall>m \<in> set ?ns. 0 \<le> Value m \<and> Value m \<le> 11)"
    by simp
  have h4: "0 \<le> Value ?r \<and> Value ?r \<le> 11
      \<and> (\<forall>iv \<in> set [0, 3, 7, 10]. 0 \<le> iv \<and> iv \<le> (2 ^ 63 - 12 :: int))"
    by simp
  have h5: "0 \<le> Value ?r \<and> Value ?r \<le> 11 \<and> chordDictionary ! 2 \<in> set chordDictionary"
    by (simp add: chordDictionary_def)
  have h6: "\<forall>m \<in> set ?ns. 0 \<le> Value m \<and> Value m \<le> 11" by simp
  from T h1 have c1: "0 \<le> Value ?r \<and> Value ?r \<le> 11" by blast
  from T h2 have c2: "\<forall>m \<in> set ?gs. 0 \<le> Value m \<and> Value m \<le> 11" by blast
  from T h3 have c3: "\<forall>i \<in> set (CalculateIntervals ?r ?ns). 0 \<le> i \<and> i \<le> 11" by blast
  from T h4 have c4: "\<exists>gs. GenerateNotes ?r [0, 3, 7, 10] = Inr gs" by blast
  from T h5 have c5: "\<exists>gs. GenerateNotes ?r (Chord_Intervals (chordDictionary ! 2)) = Inr gs"
    by blast
  from T h6 have c6: "\<exists>str. SliceToString ?ns = Inr str" by blast
  from c2 have c2': "list_all (\<lambda>m. 0 \<le> Value m \<and> Value m \<le> 11) ?gs"
    unfolding list_all_iff .
  from c3 have c3': "list_all (\<lambda>i. 0 \<le> i \<and> i \<le> 11) (CalculateIntervals ?r ?ns)"
    unfolding list_all_iff .
  from h1 c1 h2 c2' c3' c4 c5 c6 show ?thesis by (intro conjI) (elim conjE, assumption)+
qed

text \<open>
  The root \<open>C\<close> as \<^verbatim>\<open>ParseNote\<close> returns it and the offset \<open>-1\<close>:
  \<open>(0 + -1) % 12\<close> is \<open>-1\<close> in Go, and \<^verbatim>\<open>valueToName[-1]\<close> panics.
\<close>

theorem GenerateNotes_negative_offset_counterexample:
  "ParseNote ''C'' = Inr \<lparr>Original = ''C'', Value = 0\<rparr>
   \<and> GenerateNotes \<lparr>Original = ''C'', Value = 0\<rparr> [- 1] = Inl (IndexOutOfRange (- 1))"
  by code_simp

section \<open>Properties of chord matching\<close>

lemma missing_interval_None:
  "missing_interval xs S = None \<longleftrightarrow> set xs \<subseteq> S"
  by (induction xs) auto

lemma Check_iff:
  "fst (Check c I S) \<longleftrightarrow> length (Chord_Intervals c) \<le> length I \<and> set (Chord_Intervals c) \<subseteq> S"
  using missing_interval_None [of "Chord_Intervals c" S]
  by (auto simp: Check_def split: option.splits)

lemma intervalSet_eq: "foldl (\<lambda>s i. insert i s) S xs = S \<union> set xs"
  by (induction xs arbitrary: S) auto

lemma FindMatches_loop_set:
  "m \<in> set (FindMatches_loop I S cs) \<longleftrightarrow>
     (\<exists>c \<in> set cs. fst (Check c I S)
        \<and> m = \<lparr>Match_Name = Chord_Name c, Match_Intervals = Chord_Intervals c\<rparr>)"
  by (induction cs) auto

lemma FindMatches_set:
  "m \<in> set (FindMatches I) \<longleftrightarrow>
     (\<exists>c \<in> set chordDictionary.
        length (Chord_Intervals c) \<le> length I \<and> set (Chord_Intervals c) \<subseteq> set I
        \<and> m = \<lparr>Match_Name = Chord_Name c, Match_Intervals = Chord_Intervals c\<rparr>)"
  by (simp add: FindMatches_def Let_def FindMatches_loop_set Check_iff intervalSet_eq)

lemma chordDictionary_distinct:
  "c \<in> set chordDictionary \<Longrightarrow> distinct (Chord_Intervals c)"
  by (auto simp: chordDictionary_def)

lemma distinct_subset_length:
  assumes "distinct xs" "set xs \<subseteq> set ys"
  shows "length xs \<le> card (set ys)" "length xs \<le> length ys"
proof -
  from assms(1) have "length xs = card (set xs)" by (simp add: distinct_card)
  also from assms(2) have "\<dots> \<le> card (set ys)" by (intro card_mono) simp_all
  finally show "length xs \<le> card (set ys)" .
  also have "\<dots> \<le> length ys" by (rule card_length)
  finally show "length xs \<le> length ys" .
qed

lemma FindMatches_set_dictionary:
  "m \<in> set (FindMatches I) \<longleftrightarrow>
     (\<exists>c \<in> set chordDictionary. set (Chord_Intervals c) \<subseteq> set I
        \<and> m = \<lparr>Match_Name = Chord_Name c, Match_Intervals = Chord_Intervals c\<rparr>)"
  unfolding FindMatches_set
  using chordDictionary_distinct distinct_subset_length(2) by blast

text \<open>
  Claim C6. \<^verbatim>\<open>FindMatches\<close> on the intervals \<open>[0, 4, 7]\<close> returns exactly one match,
  the Major Triad; the names of its matches include \<open>Major Triad\<close> and exclude
  \<open>Minor Triad\<close> and \<open>Augmented Triad\<close>. The intervals are those of the parsed notes
  \<open>C\<close>, \<open>E\<close>, \<open>G\<close> from the root \<open>C\<close>.
\<close>

theorem FindMatches_Major_Triad:
  "FindMatches [0, 4, 7] = [\<lparr>Match_Name = ''Major Triad'', Match_Intervals = [0, 4, 7]\<rparr>]
   \<and> ''Major Triad'' \<in> set (map Match_Name (FindMatches [0, 4, 7]))
   \<and> ''Minor Triad'' \<notin> set (map Match_Name (FindMatches [0, 4, 7]))
   \<and> ''Augmented Triad'' \<notin> set (map Match_Name (FindMatches [0, 4, 7]))
   \<and> map ParseNote [''C'', ''E'', ''G'']
       = [Inr \<lparr>Original = ''C'', Value = 0\<rparr>, Inr \<lparr>Original = ''E'', Value = 4\<rparr>,
          Inr \<lparr>Original = ''G'', Value = 7\<rparr>]
   \<and> CalculateIntervals \<lparr>Original = ''C'', Value = 0\<rparr>
        [\<lparr>Original = ''C'', Value = 0\<rparr>, \<lparr>Original = ''E'', Value = 4\<rparr>,
         \<lparr>Original = ''G'', Value = 7\<rparr>] = [0, 4, 7]"
  by code_simp

text \<open>
  Claim C3. When the interval list \<open>I\<close> has fewer distinct values than the chord definition
  \<open>F\<close> has offsets, the match of \<open>F\<close> (its name with its offsets) is not in
  \<^verbatim>\<open>FindMatches(I)\<close>. \<^verbatim>\<open>FindMatches\<close> returns a list and has no error result: the
  match is only absent.
\<close>

theorem FindMatches_needs_distinct_intervals:
  "card (set I) < length (Chord_Intervals F) \<Longrightarrow>
     \<lparr>Match_Name = Chord_Name F, Match_Intervals = Chord_Intervals F\<rparr> \<notin> set (FindMatches I)"
proof
  assume less: "card (set I) < length (Chord_Intervals F)"
    and "\<lparr>Match_Name = Chord_Name F, Match_Intervals = Chord_Intervals F\<rparr> \<in> set (FindMatches I)"
  then obtain c where c: "c \<in> set chordDictionary" "set (Chord_Intervals c) \<subseteq> set I"
    and eq: "Chord_Intervals F = Chord_Intervals c"
    by (auto simp: FindMatches_set)
  from c(1) have "distinct (Chord_Intervals c)" by (rule chordDictionary_distinct)
  then have "length (Chord_Intervals c) \<le> card (set I)"
    using c(2) by (rule distinct_subset_length(1))
  with less eq show False by simp
qed

theorem FindMatches_needs_distinct_intervals_witness:
  "card (set [0, 0, 4, 7 :: int]) < length (Chord_Intervals (chordDictionary ! 0))
   \<and> length [0, 0, 4, 7 :: int] = length (Chord_Intervals (chordDictionary ! 0))
   \<and> \<lparr>Match_Name = Chord_Name (chordDictionary ! 0),
        Match_Intervals = Chord_Intervals (chordDictionary ! 0)\<rparr> \<notin> set (FindMatches [0, 0, 4, 7])"
proof -
  have h: "card (set [0, 0, 4, 7 :: int]) < length (Chord_Intervals (chordDictionary ! 0))"
    by (simp add: chordDictionary_def)
  have l: "length [0, 0, 4, 7 :: int] = length (Chord_Intervals (chordDictionary ! 0))"
    by (simp add: chordDictionary_def)
  from h l FindMatches_needs_distinct_intervals [OF h] show ?thesis by (intro conjI)
qed

text \<open>
  Claim C8. For a dictionary entry \<open>c\<close>, its match is in \<^verbatim>\<open>FindMatches(I)\<close> exactly when
  every offset of \<open>c\<close> occurs in \<open>I\<close>; and a match found for \<open>I\<close> is found for every
  \<open>I'\<close> in which every value of \<open>I\<close> occurs: further intervals never remove a match.
  The same holds of \<^verbatim>\<open>Check\<close> itself for any formula \<open>F\<close> whose offsets are distinct, as
  those of a chord definition are.
\<close>

theorem FindMatches_monotonic:
  "(c \<in> set chordDictionary \<longrightarrow>
      (\<lparr>Match_Name = Chord_Name c, Match_Intervals = Chord_Intervals c\<rparr> \<in> set (FindMatches I)
         \<longleftrightarrow> set (Chord_Intervals c) \<subseteq> set I))
   \<and> (m \<in> set (FindMatches I) \<and> set I \<subseteq> set I' \<longrightarrow> m \<in> set (FindMatches I'))
   \<and> (distinct (Chord_Intervals F) \<and> fst (Check F I (set I)) \<and> set I \<subseteq> set I'
        \<longrightarrow> fst (Check F I' (set I')))"
proof (intro conjI impI)
  assume "c \<in> set chordDictionary"
  then show "\<lparr>Match_Name = Chord_Name c, Match_Intervals = Chord_Intervals c\<rparr> \<in> set (FindMatches I)
         \<longleftrightarrow> set (Chord_Intervals c) \<subseteq> set I"
    by (auto simp: FindMatches_set_dictionary)
next
  assume "m \<in> set (FindMatches I) \<and> set I \<subseteq> set I'"
  then show "m \<in> set (FindMatches I')"
    unfolding FindMatches_set_dictionary by blast
next
  assume a: "distinct (Chord_Intervals F) \<and> fst (Check F I (set I)) \<and> set I \<subseteq> set I'"
  then have sub: "set (Chord_Intervals F) \<subseteq> set I'"
    by (auto simp: Check_iff)
  with a have "length (Chord_Intervals F) \<le> length I'"
    by (intro distinct_subset_length(2)) simp_all
  with sub show "fst (Check F I' (set I'))"
    by (simp add: Check_iff)
qed

theorem FindMatches_monotonic_witness:
  "chordDictionary ! 4 \<in> set chordDictionary
   \<and> set (Chord_Intervals (chordDictionary ! 4)) \<subseteq> set [0, 4, 7]
   \<and> set [0, 4, 7 :: int] \<subseteq> set [0, 2, 4, 7]
   \<and> \<lparr>Match_Name = ''Major Triad'', Match_Intervals = [0, 4, 7]\<rparr> \<in> set (FindMatches [0, 4, 7])
   \<and> \<lparr>Match_Name = ''Major Triad'', Match_Intervals = [0, 4, 7]\<rparr> \<in> set (FindMatches [0, 2, 4, 7])
   \<and> fst (Check (chordDictionary ! 4) [0, 4, 7] (set [0, 4, 7]))
   \<and> fst (Check (chordDictionary ! 4) [0, 2, 4, 7] (set [0, 2, 4, 7]))"
proof -
  let ?c = "chordDictionary ! 4"
  let ?m = "\<lparr>Match_Name = ''Major Triad'', Match_Intervals = [0, 4, 7]\<rparr>"
  note T = FindMatches_monotonic [where c = ?c and I = "[0, 4, 7]" and I' = "[0, 2, 4, 7]"
      and m = ?m and F = ?c]
  have h1: "?c \<in> set chordDictionary" by (simp add: chordDictionary_def)
  have h2: "set (Chord_Intervals ?c) \<subseteq> set [0, 4, 7]" by (simp add: chordDictionary_def)
  have h3: "set [0, 4, 7 :: int] \<subseteq> set [0, 2, 4, 7]" by simp
  have e: "\<lparr>Match_Name = Chord_Name ?c, Match_Intervals = Chord_Intervals ?c\<rparr> = ?m"
    by (simp add: chordDictionary_def)
  from T h1 h2 have "\<lparr>Match_Name = Chord_Name ?c, Match_Intervals = Chord_Intervals ?c\<rparr>
      \<in> set (FindMatches [0, 4, 7])" by blast
  then have c1: "?m \<in> set (FindMatches [0, 4, 7])" unfolding e .
  with T h3 have c2: "?m \<in> set (FindMatches [0, 2, 4, 7])" by blast
  have h4: "distinct (Chord_Intervals ?c)" by (simp add: chordDictionary_def)
  have h5: "fst (Check ?c [0, 4, 7] (set [0, 4, 7]))" by code_simp
  from T h3 h4 h5 have c3: "fst (Check ?c [0, 2, 4, 7] (set [0, 2, 4, 7]))" by blast
  from h1 h2 h3 c1 c2 h5 c3 show ?thesis by (intro conjI)
qed

section \<open>Properties of chord-name parsing\<close>

lemma suffix_loop_iff: "suffix_loop quality ss \<longleftrightarrow> quality \<in> set ss"
  by (induction ss) auto

lemma chordDef_loop_find:
  "chordDef_loop quality cs = find (\<lambda>c. quality \<in> set (Suffixes c)) cs"
  by (induction cs) (simp_all add: suffix_loop_iff)

lemma find_quality_spec: "find_quality rootNote quality = lookup_quality_spec rootNote quality"
  by (simp add: find_quality_def lookup_quality_spec_def chordDef_loop_find)

text \<open>
  Claim C5. For a token of at least two characters \<^verbatim>\<open>ParseChordName\<close> first parses the
  first two characters as the root, and only when that fails the first character; when
  both fail the result is the invalid-root error; otherwise the quality is the rest of the
  token after the root, and the result is the first dictionary entry, in dictionary order,
  one of whose suffixes equals the quality (equality of strings, so case matters), or the
  unknown-quality error naming the quality when there is none.
\<close>

theorem ParseChordName_two_chars_first:
  "2 \<le> length name \<Longrightarrow>
     ParseChordName name =
       (case ParseNote (take 2 name) of
          Inr rootNote \<Rightarrow> lookup_quality_spec rootNote (drop 2 name)
        | Inl e \<Rightarrow>
            (case ParseNote (take 1 name) of
               Inr rootNote \<Rightarrow> lookup_quality_spec rootNote (drop 1 name)
             | Inl e' \<Rightarrow> Inl InvalidRootNote))"
  by (simp add: ParseChordName_def find_quality_spec split: sum.splits)

theorem ParseChordName_two_chars_first_witness:
  "2 \<le> length ''F#m7''
   \<and> ParseChordName ''F#m7''
       = Inr (\<lparr>Original = ''F#'', Value = 6\<rparr>,
              \<lparr>Chord_Name = ''Minor 7th'', Suffixes = [''m7'', ''min7''],
                Chord_Intervals = [0, 3, 7, 10]\<rparr>)
   \<and> ParseChordName ''AM7''
       = Inr (\<lparr>Original = ''A'', Value = 9\<rparr>,
              \<lparr>Chord_Name = ''Major 7th'', Suffixes = [''maj7'', ''M7''],
                Chord_Intervals = [0, 4, 7, 11]\<rparr>)
   \<and> ParseChordName ''Cmaj9'' = Inl (UnknownChordQuality ''maj9'')
   \<and> ParseChordName ''H7'' = Inl InvalidRootNote"
proof -
  have h1: "2 \<le> length ''F#m7''" by simp
  have "ParseChordName ''F#m7'' =
      (case ParseNote (take 2 ''F#m7'') of
         Inr rootNote \<Rightarrow> lookup_quality_spec rootNote (drop 2 ''F#m7'')
       | Inl e \<Rightarrow>
           (case ParseNote (take 1 ''F#m7'') of
              Inr rootNote \<Rightarrow> lookup_quality_spec rootNote (drop 1 ''F#m7'')
            | Inl e' \<Rightarrow> Inl InvalidRootNote))"
    using h1 by (rule ParseChordName_two_chars_first)
  also have "\<dots> = Inr (\<lparr>Original = ''F#'', Value = 6\<rparr>,
              \<lparr>Chord_Name = ''Minor 7th'', Suffixes = [''m7'', ''min7''],
                Chord_Intervals = [0, 3, 7, 10]\<rparr>)"
    by code_simp
  finally have r1: "ParseChordName ''F#m7''
       = Inr (\<lparr>Original = ''F#'', Value = 6\<rparr>,
              \<lparr>Chord_Name = ''Minor 7th'', Suffixes = [''m7'', ''min7''],
                Chord_Intervals = [0, 3, 7, 10]\<rparr>)" .
  have h2: "2 \<le> length ''AM7''" by simp
  have "ParseChordName ''AM7'' =
      (case ParseNote (take 2 ''AM7'') of
         Inr rootNote \<Rightarrow> lookup_quality_spec rootNote (drop 2 ''AM7'')
       | Inl e \<Rightarrow>
           (case ParseNote (take 1 ''AM7'') of
              Inr rootNote \<Rightarrow> lookup_quality_spec rootNote (drop 1 ''AM7'')
            | Inl e' \<Rightarrow> Inl InvalidRootNote))"
    using h2 by (rule ParseChordName_two_chars_first)
  also have "\<dots> = Inr (\<lparr>Original = ''A'', Value = 9\<rparr>,
              \<lparr>Chord_Name = ''Major 7th'', Suffixes = [''maj7'', ''M7''],
                Chord_Intervals = [0, 4, 7, 11]\<rparr>)"
    by code_simp
  finally have r2: "ParseChordName ''AM7''
       = Inr (\<lparr>Original = ''A'', Value = 9\<rparr>,
              \<lparr>Chord_Name = ''Major 7th'', Suffixes = [''maj7'', ''M7''],
                Chord_Intervals = [0, 4, 7, 11]\<rparr>)" .
  have h3: "2 \<le> length ''Cmaj9''" by simp
  have "ParseChordName ''Cmaj9'' =
      (case ParseNote (take 2 ''Cmaj9'') of
         Inr rootNote \<Rightarrow> lookup_quality_spec rootNote (drop 2 ''Cmaj9'')
       | Inl e \<Rightarrow>
           (case ParseNote (take 1 ''Cmaj9'') of
              Inr rootNote \<Rightarrow> lookup_quality_spec rootNote (drop 1 ''Cmaj9'')
            | Inl e' \<Rightarrow> Inl InvalidRootNote))"
    using h3 by (rule ParseChordName_two_chars_first)
  also have "\<dots> = Inl (UnknownChordQuality ''maj9'')"
    by code_simp
  finally have r3: "ParseChordName ''Cmaj9'' = Inl (UnknownChordQuality ''maj9'')" .
  have h4: "2 \<le> length ''H7''" by simp
  have "ParseChordName ''H7'' =
      (case ParseNote (take 2 ''H7'') of
         Inr rootNote \<Rightarrow> lookup_quality_spec rootNote (drop 2 ''H7'')
       | Inl e \<Rightarrow>
           (case ParseNote (take 1 ''H7'') of
              Inr rootNote \<Rightarrow> lookup_quality_spec rootNote (drop 1 ''H7'')
            | Inl e' \<Rightarrow> Inl InvalidRootNote))"
    using h4 by (rule ParseChordName_two_chars_first)
  also have "\<dots> = Inl InvalidRootNote"
    by code_simp
  finally have r4: "ParseChordName ''H7'' = Inl InvalidRootNote" .
  from h1 r1 r2 r3 r4 show ?thesis by (intro conjI)
qed

section \<open>Properties of key estimation\<close>

lemma keySignatures_eval:
  "keySignatures =
   [\<lparr>Key_Name = ''C Major'', Notes = {0, 2, 4, 5, 7, 9, 11}\<rparr>,
    \<lparr>Key_Name = ''C Minor'', Notes = {0, 2, 3, 5, 7, 8, 10}\<rparr>,
    \<lparr>Key_Name = ''Db Major'', Notes = {1, 3, 5, 6, 8, 10, 0}\<rparr>,
    \<lparr>Key_Name = ''C# Minor'', Notes = {1, 3, 4, 6, 8, 9, 11}\<rparr>,
    \<lparr>Key_Name = ''D Major'', Notes = {2, 4, 6, 7, 9, 11, 1}\<rparr>,
    \<lparr>Key_Name = ''D Minor'', Notes = {2, 4, 5, 7, 9, 10, 0}\<rparr>,
    \<lparr>Key_Name = ''Eb Major'', Notes = {3, 5, 7, 8, 10, 0, 2}\<rparr>,
    \<lparr>Key_Name = ''D# Minor'', Notes = {3, 5, 6, 8, 10, 11, 1}\<rparr>,
    \<lparr>Key_Name = ''E Major'', Notes = {4, 6, 8, 9, 11, 1, 3}\<rparr>,
    \<lparr>Key_Name = ''E Minor'', Notes = {4, 6, 7, 9, 11, 0, 2}\<rparr>,
    \<lparr>Key_Name = ''F Major'', Notes = {5, 7, 9, 10, 0, 2, 4}\<rparr>,
    \<lparr>Key_Name = ''F Minor'', Notes = {5, 7, 8, 10, 0, 1, 3}\<rparr>,
    \<lparr>Key_Name = ''Gb Major'', Notes = {6, 8, 10, 11, 1, 3, 5}\<rparr>,
    \<lparr>Key_Name = ''F# Minor'', Notes = {6, 8, 9, 11, 1, 2, 4}\<rparr>,
    \<lparr>Key_Name = ''G Major'', Notes = {7, 9, 11, 0, 2, 4, 6}\<rparr>,
    \<lparr>Key_Name = ''G Minor'', Notes = {7, 9, 10, 0, 2, 3, 5}\<rparr>,
    \<lparr>Key_Name = ''Ab Major'', Notes = {8, 10, 0, 1, 3, 5, 7}\<rparr>,
    \<lparr>Key_Name = ''G# Minor'', Notes = {8, 10, 11, 1, 3, 4, 6}\<rparr>,
    \<lparr>Key_Name = ''A Major'', Notes = {9, 11, 1, 2, 4, 6, 8}\<rparr>,
    \<lparr>Key_Name = ''A Minor'', Notes = {9, 11, 0, 2, 4, 5, 7}\<rparr>,
    \<lparr>Key_Name = ''Bb Major'', Notes = {10, 0, 2, 3, 5, 7, 9}\<rparr>,
    \<lparr>Key_Name = ''A# Minor'', Notes = {10, 0, 1, 3, 5, 6, 8}\<rparr>,
    \<lparr>Key_Name = ''B Major'', Notes = {11, 1, 3, 4, 6, 8, 10}\<rparr>,
    \<lparr>Key_Name = ''B Minor'', Notes = {11, 1, 2, 4, 6, 7, 9}\<rparr>]"
  by code_simp

lemma keySignatures_sizes:
  "map (\<lambda>k. card (Notes k)) keySignatures = replicate 24 7"
  by code_simp

lemma count_loop_filter:
  "count_loop keySig ns cnt = cnt + int (length (filter (\<lambda>n. Value n \<in> Notes keySig) ns))"
  by (induction ns arbitrary: cnt) simp_all

lemma Unique_count_card:
  "length (filter (\<lambda>n. Value n \<in> K) (Unique ns)) = card (Value ` set ns \<inter> K)"
proof -
  have d: "distinct (map Value (Unique ns))"
    and s: "set (map Value (Unique ns)) = Value ` set ns"
    by (simp_all add: Unique_def Unique_loop_distinct Unique_loop_values)
  have "length (filter (\<lambda>n. Value n \<in> K) (Unique ns))
      = length (filter (\<lambda>v. v \<in> K) (map Value (Unique ns)))"
    by (simp add: filter_map comp_def)
  also from d have "\<dots> = card (set (filter (\<lambda>v. v \<in> K) (map Value (Unique ns))))"
    by (simp add: distinct_card del: set_filter set_map)
  also have "set (filter (\<lambda>v. v \<in> K) (map Value (Unique ns))) = Value ` set ns \<inter> K"
    using s by auto
  finally show ?thesis .
qed

lemma count_loop_Unique:
  "count_loop keySig (Unique ns) 0 = int (card (Value ` set ns \<inter> Notes keySig))"
  by (simp only: count_loop_filter Unique_count_card)

lemma Estimate_loop_eq:
  "Estimate_loop ns ks =
     filter (\<lambda>m. MatchCount m > 0)
       (map (\<lambda>k. \<lparr>KeyMatch_Name = Key_Name k,
                   MatchCount = int (card (Value ` set ns \<inter> Notes k))\<rparr>) ks)"
  by (induction ks) (simp_all only: Estimate_loop.simps Let_def count_loop_Unique
      list.map filter.simps KeyMatch.simps if_True if_False split: if_splits)

lemma KeyMatch_less_key:
  "KeyMatch_less y x \<longleftrightarrow> \<not> (- MatchCount x, KeyMatch_Name x) \<le> (- MatchCount y, KeyMatch_Name y)"
  by (auto simp: KeyMatch_less_def)

lemma insert_Slice_insort:
  "insert_Slice KeyMatch_less x ys = insort_key (\<lambda>m. (- MatchCount m, KeyMatch_Name m)) x ys"
  by (induction ys) (simp_all add: KeyMatch_less_key)

lemma sort_Slice_sort_key:
  "sort_Slice KeyMatch_less xs = sort_key (\<lambda>m. (- MatchCount m, KeyMatch_Name m)) xs"
proof -
  have "insert_Slice KeyMatch_less = insort_key (\<lambda>m. (- MatchCount m, KeyMatch_Name m))"
    by (intro ext) (rule insert_Slice_insort)
  then show ?thesis by (simp add: sort_Slice_def sort_key_def)
qed

lemma KeyMatch_key_inj: "inj (\<lambda>m :: KeyMatch. (- MatchCount m, KeyMatch_Name m))"
  by (rule injI) simp

lemma sort_Slice_KeyMatch_unique:
  assumes "mset ys = mset xs"
    and "sorted_wrt (\<lambda>a b. \<not> KeyMatch_less b a) ys"
  shows "ys = sort_Slice KeyMatch_less xs"
proof -
  from assms(2) have "sorted (map (\<lambda>m. (- MatchCount m, KeyMatch_Name m)) ys)"
    by (simp add: sorted_map KeyMatch_less_key)
  moreover have "inj_on (\<lambda>m :: KeyMatch. (- MatchCount m, KeyMatch_Name m)) (set xs)"
    using KeyMatch_key_inj by (rule inj_on_subset) simp
  ultimately have "sort_key (\<lambda>m. (- MatchCount m, KeyMatch_Name m)) xs = ys"
    using assms(1) by (intro sort_key_inj_key_eq) simp_all
  then show ?thesis by (simp add: sort_Slice_sort_key)
qed

lemma estimate_spec_Nil: "estimate_spec [] = []"
  by (simp add: estimate_spec_def filter_empty_conv)

lemma Estimate_eq_spec: "Estimate ns = estimate_spec ns"
proof (cases ns)
  case Nil
  then show ?thesis by (simp add: Estimate_def estimate_spec_Nil)
next
  case (Cons n rest)
  then show ?thesis
    by (simp add: Estimate_def estimate_spec_def Estimate_loop_eq sort_Slice_sort_key)
qed

lemma estimate_spec_sorted:
  "sorted_wrt (\<lambda>a b. MatchCount b < MatchCount a
                  \<or> (MatchCount a = MatchCount b \<and> KeyMatch_Name a \<le> KeyMatch_Name b))
     (estimate_spec ns)"
proof -
  have "sorted (map (\<lambda>m. (- MatchCount m, KeyMatch_Name m)) (estimate_spec ns))"
    unfolding estimate_spec_def by (rule sorted_sort_key)
  then have "sorted_wrt (\<lambda>a b. (- MatchCount a, KeyMatch_Name a) \<le> (- MatchCount b, KeyMatch_Name b))
      (estimate_spec ns)"
    by (simp only: sorted_map)
  then show ?thesis
    by (rule sorted_wrt_mono_rel [rotated]) auto
qed

text \<open>
  Claim C4. \<^verbatim>\<open>Estimate\<close> computes the specification's \<open>estimate\<close>: for every key the
  number of distinct input pitch classes in the key's set, keys with count zero dropped,
  the rest ordered by count descending and then by name ascending, all of them returned.
  The result is ordered that way, and there are 24 keys of 7 pitch classes each.
\<close>

theorem Estimate_ranks_all_keys:
  "Estimate ns = estimate_spec ns
   \<and> sorted_wrt (\<lambda>a b. MatchCount b < MatchCount a
                    \<or> (MatchCount a = MatchCount b \<and> KeyMatch_Name a \<le> KeyMatch_Name b))
       (Estimate ns)
   \<and> map (\<lambda>k. card (Notes k)) keySignatures = replicate 24 7"
  using Estimate_eq_spec [of ns] estimate_spec_sorted [of ns] keySignatures_sizes by simp

text \<open>
  Claim C1, as the code has it. For the parsed notes \<open>C\<close>, \<open>D\<close>, \<open>E\<close>, \<open>F\<close>, \<open>G\<close>,
  \<open>A\<close> the ranked list holds \<open>C Major\<close> with 6 matches, the highest count, but not in
  the first place: \<open>A Minor\<close>, \<open>C Major\<close>, \<open>D Minor\<close> and \<open>F Major\<close> all contain the
  six pitch classes, and the tie is broken by name, so \<open>A Minor\<close> is first and \<open>C Major\<close>
  second. The whole list is as follows.
\<close>

theorem Estimate_C_D_E_F_G_A:
  "map ParseNote [''C'', ''D'', ''E'', ''F'', ''G'', ''A'']
     = map Inr [\<lparr>Original = ''C'', Value = 0\<rparr>, \<lparr>Original = ''D'', Value = 2\<rparr>,
                \<lparr>Original = ''E'', Value = 4\<rparr>, \<lparr>Original = ''F'', Value = 5\<rparr>,
                \<lparr>Original = ''G'', Value = 7\<rparr>, \<lparr>Original = ''A'', Value = 9\<rparr>]
   \<and> Estimate
       [\<lparr>Original = ''C'', Value = 0\<rparr>, \<lparr>Original = ''D'', Value = 2\<rparr>,
        \<lparr>Original = ''E'', Value = 4\<rparr>, \<lparr>Original = ''F'', Value = 5\<rparr>,
        \<lparr>Original = ''G'', Value = 7\<rparr>, \<lparr>Original = ''A'', Value = 9\<rparr>]
     = [\<lparr>KeyMatch_Name = ''A Minor'', MatchCount = 6\<rparr>,
        \<lparr>KeyMatch_Name = ''C Major'', MatchCount = 6\<rparr>,
        \<lparr>KeyMatch_Name = ''D Minor'', MatchCount = 6\<rparr>,
        \<lparr>KeyMatch_Name = ''F Major'', MatchCount = 6\<rparr>,
        \<lparr>KeyMatch_Name = ''Bb Major'', MatchCount = 5\<rparr>,
        \<lparr>KeyMatch_Name = ''E Minor'', MatchCount = 5\<rparr>,
        \<lparr>KeyMatch_Name = ''G Major'', MatchCount = 5\<rparr>,
        \<lparr>KeyMatch_Name = ''G Minor'', MatchCount = 5\<rparr>,
        \<lparr>KeyMatch_Name = ''B Minor'', MatchCount = 4\<rparr>,
        \<lparr>KeyMatch_Name = ''C Minor'', MatchCount = 4\<rparr>,
        \<lparr>KeyMatch_Name = ''D Major'', MatchCount = 4\<rparr>,
        \<lparr>KeyMatch_Name = ''Eb Major'', MatchCount = 4\<rparr>,
        \<lparr>KeyMatch_Name = ''A Major'', MatchCount = 3\<rparr>,
        \<lparr>KeyMatch_Name = ''Ab Major'', MatchCount = 3\<rparr>,
        \<lparr>KeyMatch_Name = ''F Minor'', MatchCount = 3\<rparr>,
        \<lparr>KeyMatch_Name = ''F# Minor'', MatchCount = 3\<rparr>,
        \<lparr>KeyMatch_Name = ''A# Minor'', MatchCount = 2\<rparr>,
        \<lparr>KeyMatch_Name = ''C# Minor'', MatchCount = 2\<rparr>,
        \<lparr>KeyMatch_Name = ''Db Major'', MatchCount = 2\<rparr>,
        \<lparr>KeyMatch_Name = ''E Major'', MatchCount = 2\<rparr>,
        \<lparr>KeyMatch_Name = ''B Major'', MatchCount = 1\<rparr>,
        \<lparr>KeyMatch_Name = ''D# Minor'', MatchCount = 1\<rparr>,
        \<lparr>KeyMatch_Name = ''G# Minor'', MatchCount = 1\<rparr>,
        \<lparr>KeyMatch_Name = ''Gb Major'', MatchCount = 1\<rparr>]"
  by code_simp

text \<open>
  The first entry of that list is \<open>A Minor\<close> with 6 matches, not \<open>C Major\<close>.
\<close>

theorem Estimate_first_entry_counterexample:
  "take 1 (Estimate
         [\<lparr>Original = ''C'', Value = 0\<rparr>, \<lparr>Original = ''D'', Value = 2\<rparr>,
          \<lparr>Original = ''E'', Value = 4\<rparr>, \<lparr>Original = ''F'', Value = 5\<rparr>,
          \<lparr>Original = ''G'', Value = 7\<rparr>, \<lparr>Original = ''A'', Value = 9\<rparr>])
     = [\<lparr>KeyMatch_Name = ''A Minor'', MatchCount = 6\<rparr>]
   \<and> ''A Minor'' \<noteq> ''C Major''"
  by code_simp

end
